theory Spec2Isabelle
  imports Complex_Main "HOL-Library.Word"
begin

unbundle bit_operations_syntax

section \<open>Sound level sensor (firmware/Power/Sensors/sound\_level.c)\<close>

text \<open>
  The driver is a set of C functions over file-scope variables and the registers and pins
  of the microcontroller. The embedding passes one record around that holds both. The C
  type \<open>float\<close> is read as \<open>real\<close>: arithmetic is exact, and the only float behaviour kept
  is the one that changes which branch runs or whether a result exists at all (the
  logarithm of a non-positive number, the conversion of an out-of-range value to an
  integer). Unsigned integers are words of their width.
\<close>

subsection \<open>Local constants\<close>

definition SAMPLES :: nat where "SAMPLES = 400"
definition AMP_FACTOR :: real where "AMP_FACTOR = 44"
definition SENSITIVITY :: real where "SENSITIVITY = 1258925 / 100000000"
definition V_SUPPLY :: real where "V_SUPPLY = 33 / 10"
definition ADC_SCALE :: real where "ADC_SCALE = 4095"
definition REF_PRESSURE :: real where "REF_PRESSURE = 20 / 1000000"
definition DBZ_MAX :: real where "DBZ_MAX = 106"
definition SCALE_FACTOR :: real where "SCALE_FACTOR = 600"

subsection \<open>Variables, registers and pins\<close>

text \<open>
  The first group are the file-scope variables of sound\_level.c. \<open>measurementData\<close> is
  the two-byte array, as the pair (element 0, element 1). \<open>sampleArray\<close> is the array of
  \<open>SAMPLES\<close> conversion codes.

  The second group is the hardware the functions touch: \<open>nTO\<close> is \<open>STATUSbits.nTO\<close>,
  \<open>SWDTEN\<close> is \<open>WDTCON0bits.SWDTEN\<close> (kept apart from the byte last written to the whole
  register, since the device header that places the bit is not among the sources),
  \<open>ADGO\<close> and \<open>ADCONT\<close> say whether the converter is converting and whether it restarts
  by itself, \<open>powerMic\<close> and \<open>mode_pin\<close> are the levels of the two microphone pins, and
  \<open>READY_line\<close> lists the levels written to the host-interrupt pin, oldest first
  (\<open>False\<close> is low).
\<close>

record state =
  presSumSquared :: real
  adcScaler :: real
  measurementRunning :: bool
  sampling :: bool
  sampleCounter :: "16 word"
  sampleSum :: "32 word"
  sampleAverage :: real
  sampleArray :: "16 word list"
  measurementData :: "8 word \<times> 8 word"
  thresholdEnabled :: "8 word"
  thresholdLevel :: "16 word"
  polledMeasurement :: bool
  overThreshold :: bool
  nTO :: bool
  WDTCON0 :: "8 word"
  WDTCON1 :: "8 word"
  SWDTEN :: bool
  ADGO :: bool
  ADCONT :: bool
  powerMic :: bool
  mode_pin :: bool
  READY_line :: "bool list"

text \<open>What a C function can do other than return: the two undefined operations of the file.\<close>

datatype fault =
  Array_Out_Of_Bounds
  | Float_To_Integer_Out_Of_Range

subsection \<open>Hardware primitives\<close>

text \<open>
  \<open>CLRWDT\<close> restarts the watchdog counter; of its effects the model keeps the one the
  source states at \<open>SoundLevel_Init\<close>: it sets \<open>nTO\<close> back to 1.
\<close>

definition CLRWDT :: "state \<Rightarrow> state" where
  "CLRWDT s = s\<lparr>nTO := True\<rparr>"

text \<open>
  The source's reading of the time-out bit (comments at \<open>SoundLevel_Init\<close> and
  \<open>SoundLevel_Loop\<close>): it is 0 after the watchdog has timed out, 1 otherwise.
\<close>

definition watchdog_expired :: "state \<Rightarrow> bool" where
  "watchdog_expired s = (\<not> nTO s)"

text \<open>\<open>generateInt\<close>: pull the interrupt line low, wait 5 ms, release it.\<close>

definition generateInt :: "state \<Rightarrow> state" where
  "generateInt s = s\<lparr>READY_line := READY_line s @ [False, True]\<rparr>"

text \<open>The number of pulses on the interrupt line so far.\<close>

definition interrupts :: "state \<Rightarrow> nat" where
  "interrupts s = count_list (READY_line s) False"

definition SoundLevel_StartADC :: "state \<Rightarrow> state" where
  "SoundLevel_StartADC s = s\<lparr>ADCONT := True, ADGO := True\<rparr>"

definition SoundLevel_StopADC :: "state \<Rightarrow> state" where
  "SoundLevel_StopADC s = s\<lparr>ADGO := False, ADCONT := False\<rparr>"

subsection \<open>Sensor API functions\<close>

text \<open>
  \<open>SoundLevel_Init\<close>. The pin-direction calls and the initialisation of the converter
  change nothing the other functions read and are left out.
\<close>

definition SoundLevel_Init :: "state \<Rightarrow> state" where
  "SoundLevel_Init s =
     (let s1 = s\<lparr>mode_pin := False, powerMic := False\<rparr>;
          s2 = s1\<lparr>adcScaler := V_SUPPLY / (ADC_SCALE * SENSITIVITY * AMP_FACTOR)\<rparr>;
          s3 = s2\<lparr>WDTCON0 := 0x14, WDTCON1 := 0x07\<rparr>;
          s4 = (if nTO s3 then s3\<lparr>thresholdEnabled := 0\<rparr> else s3);
          s5 = CLRWDT s4
      in s5\<lparr>SWDTEN := True\<rparr>)"

definition SoundLevel_Measure :: "state \<Rightarrow> state" where
  "SoundLevel_Measure s = s\<lparr>polledMeasurement := True\<rparr>"

definition SoundLevel_GetData :: "state \<Rightarrow> 8 word list \<times> 8 word" where
  "SoundLevel_GetData s = ([fst (measurementData s), snd (measurementData s)], 2)"

text \<open>
  \<open>SoundLevel_SetThreshold\<close>. The payload is the list of bytes behind the pointer; with
  metric 0 the function reads elements 0, 3 and 4, so a payload shorter than five bytes is
  read past its end. The shift and the OR of the source are carried out in \<open>int\<close> and
  the cast keeps the low 16 bits; the embedding computes in 16 bits directly.
\<close>

definition SoundLevel_SetThreshold :: "8 word \<Rightarrow> 8 word list \<Rightarrow> state \<Rightarrow> fault + state" where
  "SoundLevel_SetThreshold metric thresholdData s =
     (if metric = 0 then
        (if length thresholdData < 5 then Inl Array_Out_Of_Bounds
         else
           (let s1 = s\<lparr>thresholdEnabled := thresholdData ! 0\<rparr>;
                s2 = s1\<lparr>thresholdLevel :=
                       push_bit 8 (ucast (thresholdData ! 3)) OR ucast (thresholdData ! 4)\<rparr>
            in Inr (if thresholdEnabled s2 \<noteq> 0 then s2\<lparr>SWDTEN := True\<rparr> else s2)))
      else Inr s)"

subsection \<open>Sampling\<close>

text \<open>
  \<open>SoundLevel_GetSample\<close>, the callback of the conversion-complete interrupt. The
  conversion result it fetches is the argument \<open>sample\<close>. The store into
  \<open>sampleArray\<close> has no bounds check in the source, so a call with \<open>sampleCounter\<close> at
  or beyond \<open>SAMPLES\<close> writes outside the array.
\<close>

definition SoundLevel_GetSample :: "16 word \<Rightarrow> state \<Rightarrow> fault + state" where
  "SoundLevel_GetSample sample s =
     (if unat (sampleCounter s) < SAMPLES then
        (let s1 = s\<lparr>sampleArray := (sampleArray s)[unat (sampleCounter s) := sample]\<rparr>;
             s2 = s1\<lparr>sampleSum := sampleSum s1 + ucast sample\<rparr>;
             s3 = s2\<lparr>sampleCounter := sampleCounter s2 + 1\<rparr>
         in Inr (if unat (sampleCounter s3) > SAMPLES - 1
                 then (SoundLevel_StopADC s3)\<lparr>sampling := False\<rparr>
                 else s3))
      else Inl Array_Out_Of_Bounds)"

text \<open>The callback run once for each conversion result of a list, in order.\<close>

fun callbacks :: "16 word list \<Rightarrow> state \<Rightarrow> fault + state" where
  "callbacks [] s = Inr s"
| "callbacks (sample # rest) s =
     (case SoundLevel_GetSample sample s of
        Inl e \<Rightarrow> Inl e
      | Inr s' \<Rightarrow> callbacks rest s')"

text \<open>
  \<open>measure\<close> up to its wait loop \<open>while(sampling) CLRWDT();\<close>: the control variables are
  reset, the microphone is powered and the converter started. The callbacks run while the
  loop waits; \<open>processSamples\<close> and \<open>SoundLevel_PrepareData\<close> follow it.
\<close>

definition measure_begin :: "state \<Rightarrow> state" where
  "measure_begin s =
     (let s1 = CLRWDT s;
          s2 = s1\<lparr>sampling := True, sampleCounter := 0, presSumSquared := 0, sampleSum := 0\<rparr>;
          s3 = s2\<lparr>powerMic := True\<rparr>
      in SoundLevel_StartADC s3)"

subsection \<open>Reduction\<close>

text \<open>
  \<open>processSamples\<close>: the mean from the running sum, then the loop over the array that
  adds each squared pressure deviation to \<open>presSumSquared\<close>.
\<close>

definition processSamples_step :: "nat \<Rightarrow> state \<Rightarrow> state" where
  "processSamples_step i s =
     (let sampleToPressure = (real (unat (sampleArray s ! i)) - sampleAverage s) * adcScaler s
      in s\<lparr>presSumSquared := presSumSquared s + sampleToPressure * sampleToPressure\<rparr>)"

function processSamples_loop :: "nat \<Rightarrow> state \<Rightarrow> state" where
  "processSamples_loop i s =
     (if i < SAMPLES then processSamples_loop (i + 1) (processSamples_step i s) else s)"
  by pat_completeness auto
termination
  by (relation "measure (\<lambda>(i, s). SAMPLES - i)") auto

definition processSamples :: "state \<Rightarrow> state" where
  "processSamples s =
     processSamples_loop 0 (s\<lparr>sampleAverage := real (unat (sampleSum s)) / real SAMPLES\<rparr>)"

subsection \<open>Conversion to the transmitted value\<close>

text \<open>
  C's \<open>log10\<close> is a number only on positive arguments: at 0 it is minus infinity and
  below 0 it is not a number. \<open>None\<close> stands for both. (HOL's \<open>log 10 0\<close> is 0.)
\<close>

definition log10_c :: "real \<Rightarrow> real option" where
  "log10_c x = (if 0 < x then Some (log 10 x) else None)"

text \<open>C's \<open>round\<close>: to the nearest integer, halves away from zero.\<close>

definition round_c :: "real \<Rightarrow> int" where
  "round_c x = (if 0 \<le> x then \<lfloor>x + 1 / 2\<rfloor> else - \<lfloor>- x + 1 / 2\<rfloor>)"

text \<open>
  The cast of a float that holds an integer to \<open>uint16_t\<close>: defined when the integer is
  one of the type, undefined otherwise.
\<close>

definition float_to_uint16 :: "int \<Rightarrow> fault + 16 word" where
  "float_to_uint16 k =
     (if 0 \<le> k \<and> k \<le> 65535 then Inr (word_of_int k) else Inl Float_To_Integer_Out_Of_Range)"

text \<open>The first two lines of \<open>SoundLevel_PrepareData\<close>: the decibel value before the clamp.\<close>

definition compute_dBZ :: "state \<Rightarrow> real option" where
  "compute_dBZ s =
     (let presAvgSquared = presSumSquared s / real SAMPLES
      in case log10_c (presAvgSquared / (REF_PRESSURE * REF_PRESSURE)) of
           None \<Rightarrow> None
         | Some l \<Rightarrow> Some (10 * l))"

text \<open>
  The notification at the end of \<open>SoundLevel_PrepareData\<close> (from the comment
  "notify motherboard" on), as a function of \<open>dataToSend\<close>.
\<close>

definition PrepareData_notify :: "16 word \<Rightarrow> state \<Rightarrow> state" where
  "PrepareData_notify dataToSend s =
     (if polledMeasurement s then generateInt s
      else
        (let s1 = (if dataToSend > thresholdLevel s then
                     (if \<not> overThreshold s then generateInt (s\<lparr>overThreshold := True\<rparr>)
                      else s)
                   else s\<lparr>overThreshold := False\<rparr>)
         in s1\<lparr>SWDTEN := True\<rparr>))"

text \<open>
  \<open>SoundLevel_PrepareData\<close>. A decibel value that is no number is not above \<open>DBZ_MAX\<close>,
  stays what it is through the scaling and the rounding, and reaches the cast. The call
  of \<open>SoundLevel_LedOff\<close> at the end does nothing unless the activity LED is compiled in
  and is left out.
\<close>

definition SoundLevel_PrepareData :: "state \<Rightarrow> fault + state" where
  "SoundLevel_PrepareData s =
     (case compute_dBZ s of
        None \<Rightarrow> Inl Float_To_Integer_Out_Of_Range
      | Some dBZ0 \<Rightarrow>
          (let dBZ = (if dBZ0 > DBZ_MAX then DBZ_MAX else dBZ0)
           in case float_to_uint16 (round_c (dBZ * SCALE_FACTOR)) of
                Inl e \<Rightarrow> Inl e
              | Inr dataToSend \<Rightarrow>
                  (let s1 = s\<lparr>measurementData := (ucast (drop_bit 8 dataToSend), snd (measurementData s))\<rparr>;
                       s2 = s1\<lparr>measurementData := (fst (measurementData s1), ucast dataToSend)\<rparr>
                   in Inr (PrepareData_notify dataToSend s2))))"

text \<open>The 16-bit value that \<open>measurementData\<close> holds, high byte first.\<close>

definition transmitted :: "state \<Rightarrow> nat" where
  "transmitted s = 256 * unat (fst (measurementData s)) + unat (snd (measurementData s))"

subsection \<open>A state to evaluate on\<close>

definition boot_state :: state where
  "boot_state =
     \<lparr>presSumSquared = 0, adcScaler = 0, measurementRunning = False, sampling = False,
      sampleCounter = 0, sampleSum = 0, sampleAverage = 0,
      sampleArray = replicate 400 0, measurementData = (0, 0),
      thresholdEnabled = 1, thresholdLevel = 0, polledMeasurement = False,
      overThreshold = False, nTO = True, WDTCON0 = 0, WDTCON1 = 0, SWDTEN = False,
      ADGO = False, ADCONT = False, powerMic = False, mode_pin = False, READY_line = []\<rparr>"

definition two_level_state :: "16 word \<Rightarrow> state" where
  "two_level_state hi =
     boot_state\<lparr>sampleArray := replicate 200 0 @ replicate 200 hi,
                sampleSum := 200 * ucast hi,
                adcScaler := adcScaler (SoundLevel_Init boot_state)\<rparr>"

definition polled_state :: state where
  "polled_state =
     boot_state\<lparr>polledMeasurement := True, overThreshold := True, thresholdLevel := 65535,
                presSumSquared := 16 / 100\<rparr>"

subsection \<open>The invariant of a sampling cycle\<close>

definition cycle_inv :: "state \<Rightarrow> bool" where
  "cycle_inv s \<longleftrightarrow>
     length (sampleArray s) = SAMPLES \<and>
     unat (sampleCounter s) \<le> SAMPLES \<and>
     unat (sampleSum s) = sum_list (map unat (take (unat (sampleCounter s)) (sampleArray s))) \<and>
     (sampling s \<longleftrightarrow> unat (sampleCounter s) < SAMPLES) \<and>
     (ADGO s \<longleftrightarrow> unat (sampleCounter s) < SAMPLES)"

subsection \<open>The reduction as the specification words it\<close>








section \<open>Threshold configuration\<close>

text \<open>
  C7. With a metric other than 0, \<open>SoundLevel_SetThreshold\<close> returns normally, for every
  payload (also the empty one), and the whole state, so in particular
  \<open>thresholdEnabled\<close> and \<open>thresholdLevel\<close>, is the one it was called in. Conversely a
  call that returns with either of the two changed had metric 0.
\<close>

theorem SetThreshold_other_metric_ignored:
  "(metric \<noteq> 0 \<longrightarrow> SoundLevel_SetThreshold metric thresholdData s = Inr s) \<and>
   (SoundLevel_SetThreshold metric thresholdData s = Inr s' \<and>
      (thresholdEnabled s' \<noteq> thresholdEnabled s \<or> thresholdLevel s' \<noteq> thresholdLevel s)
    \<longrightarrow> metric = 0)"
  by (auto simp: SoundLevel_SetThreshold_def)

theorem SetThreshold_other_metric_ignored_witness:
  "(1::8 word) \<noteq> 0 \<and>
   SoundLevel_SetThreshold 1 [1, 0, 0, 0xC3, 0x50] boot_state = Inr boot_state \<and>
   SoundLevel_SetThreshold 0 [0, 0, 0, 0xC3, 0x50] boot_state =
     Inr (boot_state\<lparr>thresholdEnabled := 0, thresholdLevel := 50000\<rparr>) \<and>
   thresholdEnabled (boot_state\<lparr>thresholdEnabled := 0, thresholdLevel := 50000\<rparr>)
     \<noteq> thresholdEnabled boot_state \<and> (0::8 word) = 0"
  using SetThreshold_other_metric_ignored [of 1 "[1, 0, 0, 0xC3, 0x50]" boot_state]
    SetThreshold_other_metric_ignored [of 0 "[0, 0, 0, 0xC3, 0x50]" boot_state
      "boot_state\<lparr>thresholdEnabled := 0, thresholdLevel := 50000\<rparr>"]
  by (simp add: SoundLevel_SetThreshold_def boot_state_def)

lemma be16_value:
  "push_bit 8 (ucast (hi :: 8 word) :: 16 word) OR ucast (lo :: 8 word)
     = word_of_nat (256 * unat hi + unat lo)"
proof -
  have "push_bit 8 (ucast hi :: 16 word) AND ucast lo = 0"
    by (rule bit_eqI) (auto simp: bit_simps dest: bit_imp_le_length)
  then have "push_bit 8 (ucast hi :: 16 word) OR ucast lo = push_bit 8 (ucast hi) + ucast lo"
    by (simp add: disjunctive_add_eq_or)
  also have "\<dots> = word_of_nat (256 * unat hi + unat lo)"
    by (simp add: push_bit_eq_mult mult.commute)
  finally show ?thesis .
qed

text \<open>
  C10. With metric 0 and a payload of at least five bytes, the new \<open>thresholdEnabled\<close> is
  payload byte 0, the new \<open>thresholdLevel\<close> is 256 times byte 3 plus byte 4 (bytes 1 and 2
  have no influence on the result), the watchdog is software-enabled when byte 0 is not
  zero and \<open>SWDTEN\<close> keeps its value when byte 0 is zero, and nothing else changes.
\<close>

theorem SetThreshold_metric0_layout:
  "5 \<le> length thresholdData \<Longrightarrow>
   SoundLevel_SetThreshold 0 thresholdData s =
     Inr (s\<lparr>thresholdEnabled := thresholdData ! 0,
            thresholdLevel := word_of_nat (256 * unat (thresholdData ! 3) + unat (thresholdData ! 4)),
            SWDTEN := (thresholdData ! 0 \<noteq> 0 \<or> SWDTEN s)\<rparr>) \<and>
   SoundLevel_SetThreshold 0 (thresholdData[1 := b1, 2 := b2]) s =
     SoundLevel_SetThreshold 0 thresholdData s"
  by (simp add: SoundLevel_SetThreshold_def be16_value Let_def)

theorem SetThreshold_metric0_layout_witness:
  "5 \<le> length [1, 0xAA, 0xBB, 0xC3, 0x50 :: 8 word] \<and>
   SoundLevel_SetThreshold 0 [1, 0xAA, 0xBB, 0xC3, 0x50] (boot_state\<lparr>thresholdEnabled := 0\<rparr>) =
     Inr (boot_state\<lparr>thresholdEnabled := 1, thresholdLevel := 50000, SWDTEN := True\<rparr>) \<and>
   SoundLevel_SetThreshold 0 [1, 7, 9, 0xC3, 0x50] (boot_state\<lparr>thresholdEnabled := 0\<rparr>) =
     SoundLevel_SetThreshold 0 [1, 0xAA, 0xBB, 0xC3, 0x50] (boot_state\<lparr>thresholdEnabled := 0\<rparr>)"
  using SetThreshold_metric0_layout
    [of "[1, 0xAA, 0xBB, 0xC3, 0x50]" "boot_state\<lparr>thresholdEnabled := 0\<rparr>" 7 9]
  by (simp add: boot_state_def)

section \<open>Boot\<close>

text \<open>
  C1, as the code has it. \<open>SoundLevel_Init\<close> clears \<open>thresholdEnabled\<close> when the time-out
  bit reads 1, that is when the reset was not a watchdog time-out (a power-on, for one),
  and keeps the persisted value when the bit reads 0, that is after a watchdog time-out.
\<close>

theorem Init_thresholdEnabled:
  "thresholdEnabled (SoundLevel_Init s) =
     (if watchdog_expired s then thresholdEnabled s else 0)"
  by (simp add: SoundLevel_Init_def watchdog_expired_def CLRWDT_def Let_def)

theorem Init_thresholdEnabled_witness:
  "watchdog_expired (boot_state\<lparr>nTO := False, thresholdEnabled := 7\<rparr>) \<and>
   thresholdEnabled (SoundLevel_Init (boot_state\<lparr>nTO := False, thresholdEnabled := 7\<rparr>)) = 7 \<and>
   \<not> watchdog_expired (boot_state\<lparr>nTO := True, thresholdEnabled := 7\<rparr>) \<and>
   thresholdEnabled (SoundLevel_Init (boot_state\<lparr>nTO := True, thresholdEnabled := 7\<rparr>)) = 0"
  using Init_thresholdEnabled [of "boot_state\<lparr>nTO := False, thresholdEnabled := 7\<rparr>"]
    Init_thresholdEnabled [of "boot_state\<lparr>nTO := True, thresholdEnabled := 7\<rparr>"]
  by (simp add: watchdog_expired_def boot_state_def)

text \<open>
  C1 as the specification words it fails in both directions: after a watchdog time-out
  with the flag set, the flag is still set once \<open>SoundLevel_Init\<close> has run; after a reset
  that was no time-out, the flag that was set is cleared.
\<close>

theorem Init_forced_off_on_expiry_counterexample:
  "watchdog_expired (boot_state\<lparr>nTO := False\<rparr>) \<and>
   thresholdEnabled (boot_state\<lparr>nTO := False\<rparr>) = 1 \<and>
   thresholdEnabled (SoundLevel_Init (boot_state\<lparr>nTO := False\<rparr>)) \<noteq> 0 \<and>
   \<not> watchdog_expired boot_state \<and>
   thresholdEnabled (SoundLevel_Init boot_state) \<noteq> thresholdEnabled boot_state"
  by (simp add: SoundLevel_Init_def watchdog_expired_def CLRWDT_def Let_def boot_state_def)

section \<open>Notification of the host\<close>

lemma PrepareData_result:
  "SoundLevel_PrepareData s = Inr s' \<Longrightarrow>
   \<exists>d. s' = PrepareData_notify d (s\<lparr>measurementData := (ucast (drop_bit 8 d), ucast d)\<rparr>)"
  by (auto simp: SoundLevel_PrepareData_def Let_def split: option.splits sum.splits)



lemma log10_million: "log 10 1000000 = 6"
proof -
  have a: "log 10 ((10 :: real) ^ 6) = real 6"
    by (rule log_pow_cancel) simp_all
  have b: "(10 :: real) ^ 6 = 1000000" by simp
  show ?thesis using a unfolding b by simp
qed

lemma PrepareData_polled_state:
  "SoundLevel_PrepareData polled_state =
     Inr (polled_state\<lparr>measurementData := (0x8C, 0xA0), READY_line := [False, True]\<rparr>)"
  by (simp add: SoundLevel_PrepareData_def compute_dBZ_def log10_c_def polled_state_def
      boot_state_def SAMPLES_def REF_PRESSURE_def DBZ_MAX_def SCALE_FACTOR_def log10_million
      round_c_def float_to_uint16_def PrepareData_notify_def generateInt_def Let_def)

text \<open>
  C6. When \<open>polledMeasurement\<close> is set, the notification pulses the interrupt line once
  (one low level, then high), whatever the value, the level, the enable flag and the edge
  state are, and \<open>overThreshold\<close> is what it was; the same holds of every state that
  \<open>SoundLevel_PrepareData\<close> returns.
\<close>

theorem polled_always_interrupts:
  "polledMeasurement s \<Longrightarrow>
   READY_line (PrepareData_notify dataToSend s) = READY_line s @ [False, True] \<and>
   interrupts (PrepareData_notify dataToSend s) = interrupts s + 1 \<and>
   overThreshold (PrepareData_notify dataToSend s) = overThreshold s \<and>
   (SoundLevel_PrepareData s = Inr s' \<longrightarrow>
      READY_line s' = READY_line s @ [False, True] \<and>
      interrupts s' = interrupts s + 1 \<and> overThreshold s' = overThreshold s)"
  by (auto simp: PrepareData_notify_def interrupts_def generateInt_def dest!: PrepareData_result)

theorem polled_always_interrupts_witness:
  "polledMeasurement polled_state \<and>
   READY_line (PrepareData_notify 0 polled_state) = READY_line polled_state @ [False, True] \<and>
   interrupts (PrepareData_notify 0 polled_state) = interrupts polled_state + 1 \<and>
   overThreshold (PrepareData_notify 0 polled_state) = overThreshold polled_state \<and>
   SoundLevel_PrepareData polled_state =
     Inr (polled_state\<lparr>measurementData := (0x8C, 0xA0), READY_line := [False, True]\<rparr>) \<and>
   interrupts (polled_state\<lparr>measurementData := (0x8C, 0xA0), READY_line := [False, True]\<rparr>)
     = interrupts polled_state + 1 \<and>
   overThreshold (polled_state\<lparr>measurementData := (0x8C, 0xA0), READY_line := [False, True]\<rparr>)
     = overThreshold polled_state"
proof -
  have h: "polledMeasurement polled_state"
    by (simp add: polled_state_def)
  from polled_always_interrupts [OF h, of 0
      "polled_state\<lparr>measurementData := (0x8C, 0xA0), READY_line := [False, True]\<rparr>"]
    h PrepareData_polled_state
  show ?thesis by simp
qed

section \<open>Sampling cycle\<close>

lemma measure_begin_start:
  "sampleArray (measure_begin (SoundLevel_Init boot_state)) = replicate 400 0"
  "sampleCounter (measure_begin (SoundLevel_Init boot_state)) = 0"
  "sampleSum (measure_begin (SoundLevel_Init boot_state)) = 0"
  "presSumSquared (measure_begin (SoundLevel_Init boot_state)) = 0"
  "sampling (measure_begin (SoundLevel_Init boot_state))"
  "ADGO (measure_begin (SoundLevel_Init boot_state))"
  by (simp_all add: measure_begin_def SoundLevel_Init_def SoundLevel_StartADC_def CLRWDT_def
      boot_state_def Let_def)

lemma sum_codes_bound: "sum_list (map unat (xs :: 16 word list)) \<le> 65535 * length xs"
proof (induction xs)
  case Nil
  show ?case by simp
next
  case (Cons x xs)
  have "unat x < 2 ^ 16" using unsigned_less [of x] by simp
  with Cons show ?case by simp
qed

lemma unat_counter_Suc:
  "unat (c :: 16 word) < 400 \<Longrightarrow> unat (c + 1) = unat c + 1"
  by (simp add: unat_word_ariths)

lemma unat_sum_add:
  assumes "unat (a :: 32 word) \<le> 65535 * 400"
  shows "unat (a + ucast (x :: 16 word)) = unat a + unat x"
proof -
  have x: "unat x < 2 ^ 16" using unsigned_less [of x] by simp
  then have "unat (ucast x :: 32 word) = unat x"
    by (simp add: unsigned_ucast_eq take_bit_nat_eq_self)
  with x show ?thesis using assms by (simp add: unat_word_ariths)
qed

lemma GetSample_step:
  assumes "cycle_inv s" and "unat (sampleCounter s) < SAMPLES"
  shows "\<exists>s'. SoundLevel_GetSample x s = Inr s' \<and> cycle_inv s' \<and>
           unat (sampleCounter s') = unat (sampleCounter s) + 1 \<and>
           take (unat (sampleCounter s')) (sampleArray s') =
             take (unat (sampleCounter s)) (sampleArray s) @ [x]"
proof -
  let ?n = "unat (sampleCounter s)"
  from assms have len: "length (sampleArray s) = 400" and n: "?n < 400"
    and sm: "unat (sampleSum s) = sum_list (map unat (take ?n (sampleArray s)))"
    and run: "sampling s" "ADGO s"
    by (simp_all add: cycle_inv_def SAMPLES_def)
  have cnt: "unat (sampleCounter s + 1) = ?n + 1"
    using n by (rule unat_counter_Suc)
  have "sum_list (map unat (take ?n (sampleArray s))) \<le> 65535 * length (take ?n (sampleArray s))"
    by (rule sum_codes_bound)
  with sm n len have "unat (sampleSum s) \<le> 65535 * 400" by simp
  then have sm': "unat (sampleSum s + ucast x) = unat (sampleSum s) + unat x"
    by (rule unat_sum_add)
  have tk: "take (?n + 1) ((sampleArray s)[?n := x]) = take ?n (sampleArray s) @ [x]"
    using n len by (simp add: take_Suc_conv_app_nth)
  show ?thesis
    using n len cnt sm sm' tk run
    by (auto simp: SoundLevel_GetSample_def Let_def SAMPLES_def cycle_inv_def SoundLevel_StopADC_def)
qed

lemma callbacks_inv:
  "cycle_inv s \<Longrightarrow> unat (sampleCounter s) + length xs \<le> SAMPLES \<Longrightarrow>
   \<exists>s'. callbacks xs s = Inr s' \<and> cycle_inv s' \<and>
        unat (sampleCounter s') = unat (sampleCounter s) + length xs \<and>
        take (unat (sampleCounter s')) (sampleArray s') =
          take (unat (sampleCounter s)) (sampleArray s) @ xs"
proof (induction xs arbitrary: s)
  case Nil
  then show ?case by simp
next
  case (Cons x xs)
  from Cons.prems have "unat (sampleCounter s) < SAMPLES" by simp
  with Cons.prems(1) obtain s1 where
    s1: "SoundLevel_GetSample x s = Inr s1" "cycle_inv s1"
      "unat (sampleCounter s1) = unat (sampleCounter s) + 1"
      "take (unat (sampleCounter s1)) (sampleArray s1) =
         take (unat (sampleCounter s)) (sampleArray s) @ [x]"
    using GetSample_step by blast
  from s1(3) Cons.prems(2) have "unat (sampleCounter s1) + length xs \<le> SAMPLES" by simp
  from Cons.IH [OF s1(2) this] obtain s' where
    s': "callbacks xs s1 = Inr s'" "cycle_inv s'"
      "unat (sampleCounter s') = unat (sampleCounter s1) + length xs"
      "take (unat (sampleCounter s')) (sampleArray s') =
         take (unat (sampleCounter s1)) (sampleArray s1) @ xs"
    by blast
  show ?case using s1 s' by simp
qed

lemma GetSample_presSumSquared:
  "SoundLevel_GetSample x s = Inr s' \<Longrightarrow> presSumSquared s' = presSumSquared s"
  by (auto simp: SoundLevel_GetSample_def Let_def SoundLevel_StopADC_def split: if_splits)

lemma callbacks_presSumSquared:
  "callbacks xs s = Inr s' \<Longrightarrow> presSumSquared s' = presSumSquared s"
proof (induction xs arbitrary: s)
  case Nil
  then show ?case by simp
next
  case (Cons x xs)
  then show ?case
    by (auto split: sum.splits dest: GetSample_presSumSquared)
qed

text \<open>
  C9. From a state with \<open>sampleCounter = 0\<close> and \<open>sampleSum = 0\<close>, the completion flag
  \<open>sampling\<close> set and the converter running, the callbacks for any \<open>n \<le> 400\<close> conversion
  results all return; afterwards \<open>sampleCounter\<close> is \<open>n\<close>, the first \<open>n\<close> elements of
  \<open>sampleArray\<close> are the results in arrival order, \<open>sampleSum\<close> is the sum of the first
  \<open>sampleCounter\<close> elements (without wrap-around), and \<open>sampling\<close> is cleared and the
  converter stopped exactly when \<open>n\<close> is 400. One callback with \<open>sampleCounter\<close> below 400
  stores the result at index \<open>sampleCounter\<close>, adds it to \<open>sampleSum\<close> and increments
  \<open>sampleCounter\<close>.
\<close>

theorem sampling_cycle:
  assumes "length (sampleArray s) = SAMPLES" and "sampleCounter s = 0" and "sampleSum s = 0"
    and "sampling s" and "ADGO s" and "length xs \<le> SAMPLES"
  shows "(\<exists>s'. callbacks xs s = Inr s' \<and>
            unat (sampleCounter s') = length xs \<and>
            take (length xs) (sampleArray s') = xs \<and>
            unat (sampleSum s') = sum_list (map unat (take (unat (sampleCounter s')) (sampleArray s'))) \<and>
            (sampling s' \<longleftrightarrow> length xs < SAMPLES) \<and>
            (ADGO s' \<longleftrightarrow> length xs < SAMPLES) \<and>
            length (sampleArray s') = SAMPLES) \<and>
         (unat (sampleCounter t) < SAMPLES \<longrightarrow>
            (\<exists>t'. SoundLevel_GetSample x t = Inr t' \<and>
               sampleArray t' = (sampleArray t)[unat (sampleCounter t) := x] \<and>
               sampleSum t' = sampleSum t + ucast x \<and>
               sampleCounter t' = sampleCounter t + 1))"
proof
  from assms have inv: "cycle_inv s"
    by (simp add: cycle_inv_def SAMPLES_def)
  from assms have "unat (sampleCounter s) + length xs \<le> SAMPLES" by simp
  from callbacks_inv [OF inv this] obtain s' where
    s': "callbacks xs s = Inr s'" "cycle_inv s'"
      "unat (sampleCounter s') = unat (sampleCounter s) + length xs"
      "take (unat (sampleCounter s')) (sampleArray s') =
         take (unat (sampleCounter s)) (sampleArray s) @ xs"
    by blast
  with assms(2) have "unat (sampleCounter s') = length xs"
    "take (length xs) (sampleArray s') = xs" by simp_all
  with s'(1,2) show "\<exists>s'. callbacks xs s = Inr s' \<and>
            unat (sampleCounter s') = length xs \<and>
            take (length xs) (sampleArray s') = xs \<and>
            unat (sampleSum s') = sum_list (map unat (take (unat (sampleCounter s')) (sampleArray s'))) \<and>
            (sampling s' \<longleftrightarrow> length xs < SAMPLES) \<and>
            (ADGO s' \<longleftrightarrow> length xs < SAMPLES) \<and>
            length (sampleArray s') = SAMPLES"
    by (auto simp: cycle_inv_def)
next
  show "unat (sampleCounter t) < SAMPLES \<longrightarrow>
            (\<exists>t'. SoundLevel_GetSample x t = Inr t' \<and>
               sampleArray t' = (sampleArray t)[unat (sampleCounter t) := x] \<and>
               sampleSum t' = sampleSum t + ucast x \<and>
               sampleCounter t' = sampleCounter t + 1)"
    by (simp add: SoundLevel_GetSample_def Let_def SoundLevel_StopADC_def)
qed

theorem sampling_cycle_witness:
  "length (sampleArray (measure_begin (SoundLevel_Init boot_state))) = SAMPLES \<and>
   sampleCounter (measure_begin (SoundLevel_Init boot_state)) = 0 \<and>
   sampleSum (measure_begin (SoundLevel_Init boot_state)) = 0 \<and>
   sampling (measure_begin (SoundLevel_Init boot_state)) \<and>
   ADGO (measure_begin (SoundLevel_Init boot_state)) \<and>
   length (replicate 400 (7 :: 16 word)) \<le> SAMPLES \<and>
   (\<exists>s'. callbacks (replicate 400 7) (measure_begin (SoundLevel_Init boot_state)) = Inr s' \<and>
      unat (sampleCounter s') = 400 \<and> sampleArray s' = replicate 400 7 \<and>
      unat (sampleSum s') = 2800 \<and> \<not> sampling s' \<and> \<not> ADGO s') \<and>
   unat (sampleCounter boot_state) < SAMPLES \<and>
   (\<exists>t'. SoundLevel_GetSample 7 boot_state = Inr t' \<and> sampleArray t' = 7 # replicate 399 0 \<and>
      sampleSum t' = 7 \<and> sampleCounter t' = 1)"
proof -
  let ?s = "measure_begin (SoundLevel_Init boot_state)"
  have h: "length (sampleArray ?s) = SAMPLES" "sampleCounter ?s = 0" "sampleSum ?s = 0"
    "sampling ?s" "ADGO ?s" "length (replicate 400 (7 :: 16 word)) \<le> SAMPLES"
    by (simp_all add: measure_begin_start SAMPLES_def)
  have k: "unat (sampleCounter boot_state) < SAMPLES"
    by (simp add: boot_state_def SAMPLES_def)
  from sampling_cycle [OF h, of boot_state 7] k
  obtain s' t' where
    s': "callbacks (replicate 400 7) ?s = Inr s'" "unat (sampleCounter s') = 400"
      "take 400 (sampleArray s') = replicate 400 7"
      "unat (sampleSum s') = sum_list (map unat (take (unat (sampleCounter s')) (sampleArray s')))"
      "\<not> sampling s'" "\<not> ADGO s'" "length (sampleArray s') = 400"
    and t': "SoundLevel_GetSample 7 boot_state = Inr t'"
      "sampleArray t' = (sampleArray boot_state)[unat (sampleCounter boot_state) := 7]"
      "sampleSum t' = sampleSum boot_state + ucast (7 :: 16 word)"
      "sampleCounter t' = sampleCounter boot_state + 1"
    by (auto simp: SAMPLES_def)
  from s'(3,7) have arr: "sampleArray s' = replicate 400 7" by simp
  with s'(2,4) have sm: "unat (sampleSum s') = 2800" by (simp add: sum_list_replicate)
  have "(400 :: nat) = Suc 399" by simp
  then have "replicate 400 (0 :: 16 word) = 0 # replicate 399 0"
    by (simp only: replicate_Suc)
  then have "(replicate 400 (0 :: 16 word))[0 := 7] = 7 # replicate 399 0"
    by simp
  with t' have t'': "sampleArray t' = 7 # replicate 399 0" "sampleSum t' = 7" "sampleCounter t' = 1"
    by (simp_all add: boot_state_def)
  from h k s' arr sm t'(1) t'' show ?thesis by blast
qed

section \<open>Reduction\<close>

declare processSamples_loop.simps [simp del]

lemma processSamples_loop_fold:
  "processSamples_loop i s = fold processSamples_step [i..<SAMPLES] s"
proof (induction i s rule: processSamples_loop.induct)
  case (1 i s)
  show ?case
  proof (cases "i < SAMPLES")
    case True
    then have "[i..<SAMPLES] = i # [i + 1..<SAMPLES]"
      by (simp add: upt_conv_Cons)
    with True 1 show ?thesis
      by (subst processSamples_loop.simps) simp
  next
    case False
    then show ?thesis
      by (subst processSamples_loop.simps) simp
  qed
qed

lemma fold_processSamples_step:
  "fold processSamples_step js s =
     s\<lparr>presSumSquared := presSumSquared s +
        (\<Sum>i\<leftarrow>js. ((real (unat (sampleArray s ! i)) - sampleAverage s) * adcScaler s)\<^sup>2)\<rparr>"
  by (induction js arbitrary: s)
     (simp_all add: processSamples_step_def Let_def power2_eq_square add.assoc)

lemma sum_list_over_indices:
  "(\<Sum>i\<leftarrow>[0..<length xs]. f (xs ! i)) = (\<Sum>x\<leftarrow>xs. f x)"
proof -
  have "map (\<lambda>i. f (xs ! i)) [0..<length xs] = map f (map ((!) xs) [0..<length xs])"
    by simp
  also have "\<dots> = map f xs" by (simp only: map_nth)
  finally show ?thesis by simp
qed

lemma processSamples_eq:
  assumes "length (sampleArray s) = SAMPLES"
  shows "processSamples s =
     s\<lparr>sampleAverage := real (unat (sampleSum s)) / real SAMPLES,
       presSumSquared := presSumSquared s +
         (\<Sum>x\<leftarrow>sampleArray s.
            ((real (unat x) - real (unat (sampleSum s)) / real SAMPLES) * adcScaler s)\<^sup>2)\<rparr>"
proof -
  let ?m = "real (unat (sampleSum s)) / real SAMPLES"
  have "(\<Sum>i\<leftarrow>[0..<SAMPLES]. ((real (unat (sampleArray s ! i)) - ?m) * adcScaler s)\<^sup>2)
      = (\<Sum>x\<leftarrow>sampleArray s. ((real (unat x) - ?m) * adcScaler s)\<^sup>2)"
    using sum_list_over_indices [of "\<lambda>x. ((real (unat x) - ?m) * adcScaler s)\<^sup>2" "sampleArray s"]
      assms by simp
  then show ?thesis
    by (simp add: processSamples_def processSamples_loop_fold fold_processSamples_step)
qed







lemma log10_ge: "10 ^ n \<le> x \<Longrightarrow> real n \<le> log 10 x"
proof -
  assume a: "(10::real) ^ n \<le> x"
  have "0 < (10::real) ^ n" by simp
  with a have "0 < x" by linarith
  have "log 10 (10 ^ n) \<le> log 10 x"
    using a \<open>0 < x\<close> by (simp del: log_pow_cancel)
  then show ?thesis by simp
qed









section \<open>Clamping\<close>

lemma two_level_presSumSquared:
  "presSumSquared (processSamples (two_level_state 65535)) =
     400 * ((65535 / 2) * (V_SUPPLY / (ADC_SCALE * SENSITIVITY * AMP_FACTOR)))\<^sup>2"
proof -
  have len: "length (sampleArray (two_level_state 65535)) = SAMPLES"
    by (simp add: two_level_state_def SAMPLES_def)
  have sc: "adcScaler (two_level_state 65535) = V_SUPPLY / (ADC_SCALE * SENSITIVITY * AMP_FACTOR)"
    by (simp add: two_level_state_def SoundLevel_Init_def Let_def CLRWDT_def)
  show ?thesis
    by (simp add: processSamples_eq [OF len] sc)
       (simp add: two_level_state_def boot_state_def SAMPLES_def
          sum_list_replicate power2_eq_square)
qed

text \<open>
  C4. When the decibel value computed from \<open>presSumSquared\<close> is above 106,
  \<open>SoundLevel_PrepareData\<close> returns and \<open>measurementData\<close> holds the bytes 0xF8, 0x70,
  that is 63600 = 106 * 600.
\<close>

theorem clamp_63600:
  "compute_dBZ s = Some dBZ \<Longrightarrow> dBZ > DBZ_MAX \<Longrightarrow>
   (\<exists>s'. SoundLevel_PrepareData s = Inr s' \<and> measurementData s' = (0xF8, 0x70) \<and>
         transmitted s' = 63600)"
  apply (simp add: SoundLevel_PrepareData_def Let_def DBZ_MAX_def SCALE_FACTOR_def round_c_def float_to_uint16_def transmitted_def PrepareData_notify_def generateInt_def)
  done

text \<open>The hypotheses hold after the reduction of a buffer with half the codes 0 and half 65535.\<close>

theorem clamp_63600_witness:
  "compute_dBZ (processSamples (two_level_state 65535)) =
     Some (10 * log 10 (((65535 / 2) * (V_SUPPLY / (ADC_SCALE * SENSITIVITY * AMP_FACTOR)))\<^sup>2
                          / (REF_PRESSURE * REF_PRESSURE))) \<and>
   10 * log 10 (((65535 / 2) * (V_SUPPLY / (ADC_SCALE * SENSITIVITY * AMP_FACTOR)))\<^sup>2
                  / (REF_PRESSURE * REF_PRESSURE)) > DBZ_MAX \<and>
   (\<exists>s'. SoundLevel_PrepareData (processSamples (two_level_state 65535)) = Inr s' \<and>
      measurementData s' = (0xF8, 0x70) \<and> transmitted s' = 63600)"
proof -
  let ?q = "((65535 / 2) * (V_SUPPLY / (ADC_SCALE * SENSITIVITY * AMP_FACTOR)))\<^sup>2
              / (REF_PRESSURE * REF_PRESSURE)"
  have q: "10 ^ 11 \<le> ?q"
    by (simp add: V_SUPPLY_def ADC_SCALE_def SENSITIVITY_def AMP_FACTOR_def REF_PRESSURE_def
        power2_eq_square)
  have "0 < (10 :: real) ^ 11" by simp
  with q have "0 < ?q" by linarith
  then have h1: "compute_dBZ (processSamples (two_level_state 65535)) = Some (10 * log 10 ?q)"
    by (simp add: compute_dBZ_def log10_c_def two_level_presSumSquared SAMPLES_def)
  from q have "real 11 \<le> log 10 ?q" by (rule log10_ge)
  then have h2: "10 * log 10 ?q > DBZ_MAX" by (simp add: DBZ_MAX_def)
  from h1 h2 clamp_63600 [OF h1 h2] show ?thesis by blast
qed

section \<open>Constant signal\<close>

lemma zero_variance:
  assumes "sampleArray s = replicate SAMPLES v" and "unat (sampleSum s) = SAMPLES * unat v"
    and "presSumSquared s = 0"
  shows "SoundLevel_PrepareData (processSamples s) = Inl Float_To_Integer_Out_Of_Range"
proof -
  from assms(1) have len: "length (sampleArray s) = SAMPLES" by simp
  have "presSumSquared (processSamples s) = 0"
    using assms by (simp add: processSamples_eq [OF len] SAMPLES_def sum_list_replicate)
  then show ?thesis
    by (simp add: SoundLevel_PrepareData_def compute_dBZ_def log10_c_def)
qed

text \<open>
  C2, at 400 conversion results that are all the code 0. The callbacks of a sampling cycle
  fill the buffer with them and leave the running sum 0; in \<open>processSamples\<close> every
  deviation from the mean is 0 and \<open>presSumSquared\<close> stays 0; \<open>SoundLevel_PrepareData\<close>
  then takes the logarithm at 0 and converts a value that is no number to \<open>uint16_t\<close>,
  which has no defined result.
\<close>

theorem constant_buffer_undefined:
  "\<exists>s. callbacks (replicate 400 0) (measure_begin (SoundLevel_Init boot_state)) = Inr s \<and>
       sampleArray s = replicate 400 0 \<and> sampleSum s = 0 \<and>
       SoundLevel_PrepareData (processSamples s) = Inl Float_To_Integer_Out_Of_Range"
proof -
  let ?s0 = "measure_begin (SoundLevel_Init boot_state)"
  have inv: "cycle_inv ?s0"
    by (simp add: cycle_inv_def measure_begin_start SAMPLES_def)
  have "unat (sampleCounter ?s0) + length (replicate 400 (0 :: 16 word)) \<le> SAMPLES"
    by (simp add: measure_begin_start SAMPLES_def)
  from callbacks_inv [OF inv this] obtain s where
    s: "callbacks (replicate 400 0) ?s0 = Inr s" "cycle_inv s"
      "unat (sampleCounter s) = unat (sampleCounter ?s0) + length (replicate 400 (0 :: 16 word))"
      "take (unat (sampleCounter s)) (sampleArray s) =
         take (unat (sampleCounter ?s0)) (sampleArray ?s0) @ replicate 400 0"
    by blast
  from s(3) have cnt: "unat (sampleCounter s) = 400" by (simp add: measure_begin_start)
  from s(2) have len: "length (sampleArray s) = 400" by (simp add: cycle_inv_def SAMPLES_def)
  from s(4) cnt len have arr: "sampleArray s = replicate 400 0" by (simp add: measure_begin_start)
  from s(2) cnt arr have "unat (sampleSum s) = 0" by (simp add: cycle_inv_def)
  then have sm: "sampleSum s = 0" by (simp add: unat_eq_0)
  from callbacks_presSumSquared [OF s(1)] have pr: "presSumSquared s = 0"
    by (simp add: measure_begin_start)
  have "SoundLevel_PrepareData (processSamples s) = Inl Float_To_Integer_Out_Of_Range"
    by (rule zero_variance [where v = 0]) (simp_all add: arr sm pr SAMPLES_def)
  with s(1) arr sm show ?thesis by blast
qed

end
